theory Spec2Isabelle
  imports Complex_Main "HOL-Library.Word" "HOL-Library.Multiset" "HOL-Library.Sublist"
begin

unbundle bit_operations_syntax

section \<open>JavaScript values and built-ins used by the print server\<close>

text \<open>
  A JavaScript string is a sequence of UTF-16 code units; the printer receives bytes.
  \<open>js\<close> embeds an ASCII literal of the source.
\<close>

type_synonym jsstring = "16 word list"
type_synonym byte = "8 word"

definition js :: "string \<Rightarrow> jsstring" where
  "js s = map (\<lambda>c. of_nat (of_char c)) s"

text \<open>
  A JavaScript number is an IEEE 754 binary64 value. A finite number is carried by its
  exact mathematical value; the sign of zero is not kept (the server never divides, and
  \<open>toFixed\<close> and \<open>String\<close> print both zeros alike).
\<close>

datatype number = Finite real | PosInfinity | NegInfinity | NaN

definition pow2 :: "int \<Rightarrow> real" where
  "pow2 e = (if 0 \<le> e then 2 ^ nat e else 1 / 2 ^ nat (- e))"

fun bit_length :: "nat \<Rightarrow> nat" where
  "bit_length n = (if n = 0 then 0 else Suc (bit_length (n div 2)))"

declare bit_length.simps [simp del]

text \<open>\<open>binade x\<close> is the exponent \<open>e\<close> with \<open>2\<^sup>e \<le> x < 2\<^sup>e\<^sup>+\<^sup>1\<close>, for \<open>x > 0\<close>.\<close>

definition binade :: "real \<Rightarrow> int" where
  "binade x = (if 1 \<le> x then int (bit_length (nat \<lfloor>x\<rfloor>)) - 1
               else - int (bit_length (nat (\<lceil>1 / x\<rceil> - 1))))"

definition round_half_even :: "real \<Rightarrow> int" where
  "round_half_even y =
     (let f = \<lfloor>y\<rfloor>; d = y - of_int f
      in if d < 1 / 2 then f else if 1 / 2 < d then f + 1 else if even f then f else f + 1)"

text \<open>
  Rounding of an exact result to the nearest binary64 value, ties to even: 53 significant
  bits, subnormal below \<open>2\<^sup>-\<^sup>1\<^sup>0\<^sup>2\<^sup>2\<close>; a rounded magnitude of \<open>2\<^sup>1\<^sup>0\<^sup>2\<^sup>4\<close> or more overflows
  to an infinity.
\<close>

definition round_double :: "real \<Rightarrow> real" where
  "round_double x =
     (if x = 0 then 0
      else let u = pow2 (max (binade \<bar>x\<bar>) (- 1022) - 52)
           in sgn x * of_int (round_half_even (\<bar>x\<bar> / u)) * u)"

definition to_number :: "real \<Rightarrow> number" where
  "to_number x =
     (let r = round_double x
      in if 2 ^ 1024 \<le> r then PosInfinity
         else if r \<le> - (2 ^ 1024) then NegInfinity
         else Finite r)"

definition number_sgn :: "number \<Rightarrow> int" where
  "number_sgn x = (case x of Finite a \<Rightarrow> (if a < 0 then - 1 else if a = 0 then 0 else 1)
                   | PosInfinity \<Rightarrow> 1 | NegInfinity \<Rightarrow> - 1 | NaN \<Rightarrow> 0)"

text \<open>The operators \<open>*\<close> and \<open>+\<close> on numbers.\<close>

definition number_mult :: "number \<Rightarrow> number \<Rightarrow> number" where
  "number_mult x y =
     (if x = NaN \<or> y = NaN then NaN
      else case (x, y) of
          (Finite a, Finite b) \<Rightarrow> to_number (a * b)
        | _ \<Rightarrow> (let s = number_sgn x * number_sgn y
                in if s = 0 then NaN else if 0 < s then PosInfinity else NegInfinity))"

definition number_add :: "number \<Rightarrow> number \<Rightarrow> number" where
  "number_add x y =
     (if x = NaN \<or> y = NaN then NaN
      else case (x, y) of
          (Finite a, Finite b) \<Rightarrow> to_number (a + b)
        | (Finite a, _) \<Rightarrow> y
        | (_, Finite b) \<Rightarrow> x
        | _ \<Rightarrow> (if x = y then x else NaN))"

text \<open>
  Built-ins whose result depends on the host or is not spelled out here: the local-time
  fields of \<open>new Date(s)\<close> (\<open>None\<close> for an invalid date), and the exponent notation that
  \<open>Number::toString\<close> gives a finite number of magnitude \<open>10\<^sup>2\<^sup>1\<close> or more.
\<close>

record date =
  getDate :: int
  getMonth :: int
  getFullYear :: int
  getHours :: int
  getMinutes :: int

record runtime =
  new_Date :: "jsstring \<Rightarrow> date option"
  exponent_string :: "real \<Rightarrow> jsstring"

definition digit_char :: "nat \<Rightarrow> 16 word" where
  "digit_char d = of_nat (48 + d)"

fun digits :: "nat \<Rightarrow> jsstring" where
  "digits n = (if n < 10 then [digit_char n] else digits (n div 10) @ [digit_char (n mod 10)])"

declare digits.simps [simp del]

text \<open>\<open>String(n)\<close> and \<open>`${n}`\<close> for an integer-valued number \<open>n\<close>.\<close>

definition String_int :: "runtime \<Rightarrow> int \<Rightarrow> jsstring" where
  "String_int rt n =
     (if n < 0 then js ''-'' else []) @
     (if \<bar>n\<bar> < 10 ^ 21 then digits (nat \<bar>n\<bar>) else exponent_string rt (of_int \<bar>n\<bar>))"

text \<open>
  \<open>Number.prototype.toFixed(f)\<close>, for \<open>0 \<le> f \<le> 100\<close> (the source passes 2): the integer
  \<open>n\<close> nearest to \<open>x \<times> 10\<^sup>f\<close>, the larger one of two, printed with \<open>f\<close> digits after the
  point.
\<close>

definition toFixed :: "runtime \<Rightarrow> number \<Rightarrow> nat \<Rightarrow> jsstring" where
  "toFixed rt x f =
     (case x of
        NaN \<Rightarrow> js ''NaN''
      | PosInfinity \<Rightarrow> js ''Infinity''
      | NegInfinity \<Rightarrow> js ''-Infinity''
      | Finite v \<Rightarrow>
          (let s = (if v < 0 then js ''-'' else []); a = \<bar>v\<bar>
           in if 10 ^ 21 \<le> a then s @ exponent_string rt a
              else let n = nat \<lfloor>a * 10 ^ f + 1 / 2\<rfloor>;
                       m = digits n;
                       m = (if f \<noteq> 0 \<and> length m \<le> f
                            then replicate (f + 1 - length m) (digit_char 0) @ m else m)
                   in if f \<noteq> 0
                      then s @ take (length m - f) m @ js ''.'' @ drop (length m - f) m
                      else s @ m))"

definition padStart :: "jsstring \<Rightarrow> nat \<Rightarrow> 16 word \<Rightarrow> jsstring" where
  "padStart str targetLength pad = replicate (targetLength - length str) pad @ str"

definition padEnd :: "jsstring \<Rightarrow> nat \<Rightarrow> 16 word \<Rightarrow> jsstring" where
  "padEnd str targetLength pad = str @ replicate (targetLength - length str) pad"

definition repeat :: "jsstring \<Rightarrow> nat \<Rightarrow> jsstring" where
  "repeat str n = concat (replicate n str)"

text \<open>A string operand of \<open>||\<close> or \<open>if\<close> counts as true when present and not empty.\<close>

definition truthy :: "jsstring option \<Rightarrow> bool" where
  "truthy v = (case v of None \<Rightarrow> False | Some str \<Rightarrow> str \<noteq> [])"

text \<open>
  A \<open>Set\<close> keeps its members in insertion order; \<open>add\<close> of a member already present
  changes nothing. \<open>new Set(iterable)\<close> adds the elements one by one, and spreading the
  set into an array yields the members in insertion order.
\<close>

definition Set_add :: "'a list \<Rightarrow> 'a \<Rightarrow> 'a list" where
  "Set_add s x = (if x \<in> set s then s else s @ [x])"

definition new_Set :: "'a list \<Rightarrow> 'a list" where
  "new_Set xs = foldl Set_add [] xs"

text \<open>
  \<open>Array.prototype.sort(compareFn)\<close> is a stable sort; \<open>compareFn a b > 0\<close> places
  \<open>a\<close> after \<open>b\<close>. It is modelled as a stable insertion sort. The server sorts
  distinct keys with a comparison that orders them strictly, so every sorting algorithm
  returns the same array (lemma \<open>sorted_before_unique\<close> below).
\<close>

fun insert_sorted :: "('a \<Rightarrow> 'a \<Rightarrow> int) \<Rightarrow> 'a \<Rightarrow> 'a list \<Rightarrow> 'a list" where
  "insert_sorted cmp x [] = [x]"
| "insert_sorted cmp x (y # ys) =
     (if cmp x y \<le> 0 then x # y # ys else y # insert_sorted cmp x ys)"

definition Array_sort :: "('a \<Rightarrow> 'a \<Rightarrow> int) \<Rightarrow> 'a list \<Rightarrow> 'a list" where
  "Array_sort cmp xs = foldr (insert_sorted cmp) xs []"

section \<open>ESC/POS commands and the builder (printer.js)\<close>

definition ESC :: byte where "ESC = 0x1B"
definition GS :: byte where "GS = 0x1D"
definition LF :: byte where "LF = 0x0A"

definition CMD_INIT :: "byte list" where "CMD_INIT = [ESC, 0x40]"
definition CMD_ALIGN_LEFT :: "byte list" where "CMD_ALIGN_LEFT = [ESC, 0x61, 0x00]"
definition CMD_ALIGN_CENTER :: "byte list" where "CMD_ALIGN_CENTER = [ESC, 0x61, 0x01]"
definition CMD_ALIGN_RIGHT :: "byte list" where "CMD_ALIGN_RIGHT = [ESC, 0x61, 0x02]"
definition CMD_BOLD_ON :: "byte list" where "CMD_BOLD_ON = [ESC, 0x45, 0x01]"
definition CMD_BOLD_OFF :: "byte list" where "CMD_BOLD_OFF = [ESC, 0x45, 0x00]"
definition CMD_DOUBLE_HEIGHT :: "byte list" where "CMD_DOUBLE_HEIGHT = [GS, 0x21, 0x01]"
definition CMD_DOUBLE_SIZE :: "byte list" where "CMD_DOUBLE_SIZE = [GS, 0x21, 0x11]"
definition CMD_NORMAL_SIZE :: "byte list" where "CMD_NORMAL_SIZE = [GS, 0x21, 0x00]"
definition CMD_CUT_FULL :: "byte list" where "CMD_CUT_FULL = [GS, 0x56, 0x00]"
definition CMD_CUT_PARTIAL :: "byte list" where "CMD_CUT_PARTIAL = [GS, 0x56, 0x41, 0x00]"
definition CMD_CASH_DRAWER :: "byte list" where "CMD_CASH_DRAWER = [ESC, 0x70, 0x00, 0x19, 0xFA]"
definition CMD_LINE_FEED :: "byte list" where "CMD_LINE_FEED = [LF]"

text \<open>
  The class \<open>EscPos\<close>: its state is the array \<open>bytes\<close>; every method pushes onto it and
  returns the builder. \<open>EscPos_add\<close> and \<open>EscPos_text\<close> are the methods \<open>_add\<close> and
  \<open>_text\<close>.
\<close>

record EscPos =
  bytes :: "byte list"

definition new_EscPos :: EscPos where
  "new_EscPos = \<lparr>bytes = []\<rparr>"

definition EscPos_add :: "byte list \<Rightarrow> EscPos \<Rightarrow> EscPos" where
  "EscPos_add arr doc = doc\<lparr>bytes := bytes doc @ arr\<rparr>"

definition EscPos_text :: "jsstring \<Rightarrow> EscPos \<Rightarrow> EscPos" where
  "EscPos_text str doc = doc\<lparr>bytes := bytes doc @ map (\<lambda>c. ucast (c AND 0xFF)) str\<rparr>"

definition init :: "EscPos \<Rightarrow> EscPos" where "init = EscPos_add CMD_INIT"
definition alignLeft :: "EscPos \<Rightarrow> EscPos" where "alignLeft = EscPos_add CMD_ALIGN_LEFT"
definition alignCenter :: "EscPos \<Rightarrow> EscPos" where "alignCenter = EscPos_add CMD_ALIGN_CENTER"
definition alignRight :: "EscPos \<Rightarrow> EscPos" where "alignRight = EscPos_add CMD_ALIGN_RIGHT"
definition boldOn :: "EscPos \<Rightarrow> EscPos" where "boldOn = EscPos_add CMD_BOLD_ON"
definition boldOff :: "EscPos \<Rightarrow> EscPos" where "boldOff = EscPos_add CMD_BOLD_OFF"
definition normalSize :: "EscPos \<Rightarrow> EscPos" where "normalSize = EscPos_add CMD_NORMAL_SIZE"
definition doubleHeight :: "EscPos \<Rightarrow> EscPos" where "doubleHeight = EscPos_add CMD_DOUBLE_HEIGHT"
definition doubleSize :: "EscPos \<Rightarrow> EscPos" where "doubleSize = EscPos_add CMD_DOUBLE_SIZE"
definition cutFull :: "EscPos \<Rightarrow> EscPos" where "cutFull = EscPos_add CMD_CUT_FULL"
definition cutPartial :: "EscPos \<Rightarrow> EscPos" where "cutPartial = EscPos_add CMD_CUT_PARTIAL"
definition cashDrawer :: "EscPos \<Rightarrow> EscPos" where "cashDrawer = EscPos_add CMD_CASH_DRAWER"

definition feed :: "nat \<Rightarrow> EscPos \<Rightarrow> EscPos" where
  "feed n doc = (EscPos_add CMD_LINE_FEED ^^ n) doc"

definition println :: "jsstring \<Rightarrow> EscPos \<Rightarrow> EscPos" where
  "println str doc = EscPos_add CMD_LINE_FEED (EscPos_text str doc)"

definition drawLine :: "jsstring \<Rightarrow> nat \<Rightarrow> EscPos \<Rightarrow> EscPos" where
  "drawLine char width doc = println (repeat char width) doc"

definition leftRight :: "jsstring \<Rightarrow> jsstring \<Rightarrow> nat \<Rightarrow> EscPos \<Rightarrow> EscPos" where
  "leftRight left right width doc =
     (let l = left; r = right;
          spaces = max 1 (width - length l - length r)
      in println (l @ repeat (js '' '') spaces @ r) doc)"

definition toBuffer :: "EscPos \<Rightarrow> byte list" where
  "toBuffer doc = bytes doc"

text \<open>A sequence of method calls on one builder, in program order.\<close>

definition run :: "(EscPos \<Rightarrow> EscPos) list \<Rightarrow> EscPos \<Rightarrow> EscPos" where
  "run steps doc = foldl (\<lambda>d step. step d) doc steps"

text \<open>The character U+2500 that the source passes to \<open>drawLine\<close>.\<close>

definition box_rule :: jsstring where
  "box_rule = [0x2500]"

section \<open>Helpers (printer.js)\<close>

text \<open>\<open>String(v)\<close> of a date field: \<open>NaN\<close> when the date is invalid.\<close>

definition String_field :: "runtime \<Rightarrow> int option \<Rightarrow> jsstring" where
  "String_field rt v = (case v of None \<Rightarrow> js ''NaN'' | Some n \<Rightarrow> String_int rt n)"

definition formatDateTime :: "runtime \<Rightarrow> jsstring \<Rightarrow> jsstring" where
  "formatDateTime rt dateString =
     (let date = new_Date rt dateString;
          day = padStart (String_field rt (map_option getDate date)) 2 (digit_char 0);
          month = padStart (String_field rt (map_option (\<lambda>d. getMonth d + 1) date)) 2 (digit_char 0);
          year = String_field rt (map_option getFullYear date);
          hours = map_option getHours date;
          mins = padStart (String_field rt (map_option getMinutes date)) 2 (digit_char 0);
          ampm = (if (case hours of None \<Rightarrow> False | Some h \<Rightarrow> 12 \<le> h) then js ''PM'' else js ''AM'');
          h12 = padStart (String_field rt
                  (case hours of None \<Rightarrow> Some 12
                   | Some h \<Rightarrow> (if h mod 12 \<noteq> 0 then Some (h mod 12) else Some 12))) 2 (digit_char 0)
      in day @ js ''-'' @ month @ js ''-'' @ year @ js '' '' @ h12 @ js '':'' @ mins @ js '' '' @ ampm)"

datatype align = AlignLeft | AlignRight | AlignCenter

definition col :: "jsstring \<Rightarrow> nat \<Rightarrow> align \<Rightarrow> jsstring" where
  "col text width al =
     (let str = take width text
      in case al of
           AlignRight \<Rightarrow> padStart str width 0x20
         | AlignCenter \<Rightarrow>
             (let pad = (width - length str) div 2
              in repeat (js '' '') pad @ str @ repeat (js '' '') (width - pad - length str))
         | AlignLeft \<Rightarrow> padEnd str width 0x20)"

text \<open>\<open>process.env\<close>: environment variables by name.\<close>

type_synonym process_env = "jsstring \<rightharpoonup> jsstring"

text \<open>\<open>s.replace(/^"|"$/g, '')\<close>: a leading and a trailing double quote are removed.\<close>

definition strip_quotes :: "jsstring \<Rightarrow> jsstring" where
  "strip_quotes s =
     (let s1 = (case s of [] \<Rightarrow> [] | c # cs \<Rightarrow> if c = 0x22 then cs else s)
      in if s1 \<noteq> [] \<and> last s1 = 0x22 then butlast s1 else s1)"

definition getDefaultPrinterName :: "process_env \<Rightarrow> jsstring" where
  "getDefaultPrinterName env =
     strip_quotes
       (if truthy (env (js ''DEFAULT_PRINTER'')) then the (env (js ''DEFAULT_PRINTER''))
        else if truthy (env (js ''PRINTER_NAME'')) then the (env (js ''PRINTER_NAME''))
        else js ''80mm Series Printer'')"

definition getKitchenPrinterName :: "runtime \<Rightarrow> process_env \<Rightarrow> int option \<Rightarrow> jsstring" where
  "getKitchenPrinterName rt env kitchenNumber =
     (case kitchenNumber of
        None \<Rightarrow> getDefaultPrinterName env
      | Some k \<Rightarrow>
          (let specific = env (js ''KITCHEN_'' @ String_int rt k @ js ''_PRINTER'')
           in if truthy specific then strip_quotes (the specific)
              else getDefaultPrinterName env))"

text \<open>
  The printer driver (\<open>printDirect\<close>) is outside the program. A job is a printer name and
  the raw bytes; the spool lists the jobs handed to the driver so far, oldest first. The
  driver decides, from the spool and the job, whether the job's \<open>success\<close> or \<open>error\<close>
  callback runs, so the same job may fail now and succeed later.
\<close>

type_synonym print_job = "jsstring \<times> byte list"
type_synonym driver = "print_job list \<Rightarrow> print_job \<Rightarrow> bool"

text \<open>\<open>sendToPrinter\<close>: \<open>True\<close> when the promise resolves, \<open>False\<close> when it rejects.\<close>

definition sendToPrinter ::
  "process_env \<Rightarrow> driver \<Rightarrow> byte list \<Rightarrow> jsstring \<Rightarrow> print_job list \<Rightarrow> bool \<times> print_job list" where
  "sendToPrinter env drv buffer printerName spool =
     (let name = (if printerName \<noteq> [] then printerName else getDefaultPrinterName env);
          job = (name, buffer)
      in (drv spool job, spool @ [job]))"

section \<open>Line items and kitchens (printer.js)\<close>

text \<open>
  A row of \<open>order_items\<close>. The \<open>kitchen_number\<close> column is an integer, \<open>null\<close>, or
  missing from the row (\<open>undefined\<close>); the name may be missing or empty; quantity and
  price are numbers, the quantity an integer.
\<close>

datatype kitchen_field = Undefined | Null | Kitchen int

record order_item =
  item_name :: "jsstring option"
  quantity :: int
  item_price :: number
  kitchen_number :: kitchen_field

text \<open>\<open>i.kitchen_number ?? null\<close>: the kitchen key of an item, \<open>None\<close> for \<open>null\<close>.\<close>

definition kitchen_or_null :: "kitchen_field \<Rightarrow> int option" where
  "kitchen_or_null f = (case f of Kitchen n \<Rightarrow> Some n | Null \<Rightarrow> None | Undefined \<Rightarrow> None)"

text \<open>The comparison function handed to \<open>sort\<close> in \<open>getUniqueKitchens\<close>.\<close>

fun kitchen_compare :: "int option \<Rightarrow> int option \<Rightarrow> int" where
  "kitchen_compare None None = 0"
| "kitchen_compare None (Some b) = 1"
| "kitchen_compare (Some a) None = - 1"
| "kitchen_compare (Some a) (Some b) = a - b"

definition getUniqueKitchens :: "order_item list \<Rightarrow> int option list" where
  "getUniqueKitchens items =
     Array_sort kitchen_compare (new_Set (map (\<lambda>i. kitchen_or_null (kitchen_number i)) items))"

text \<open>The filter at the head of \<open>printKitchenSlip\<close>: the items of one kitchen.\<close>

definition kitchenItems :: "order_item list \<Rightarrow> int option \<Rightarrow> order_item list" where
  "kitchenItems items kitchenNumber =
     filter (\<lambda>i. case kitchenNumber of
                   None \<Rightarrow> kitchen_number i = Null \<or> kitchen_number i = Undefined
                 | Some k \<Rightarrow> kitchen_number i = Kitchen k) items"

section \<open>Orders and the kitchen slip (printer.js)\<close>

text \<open>A row of the \<open>orders\<close> table, as far as the server reads it.\<close>

record 'id order =
  order_id :: 'id
  order_number :: int
  created_at :: jsstring
  order_type :: jsstring
  table_number :: "int option"
  customer_name :: "jsstring option"
  customer_phone :: "jsstring option"
  payment_method :: jsstring
  payment_status :: "jsstring option"

text \<open>\<open>item.item_price * item.quantity\<close>.\<close>

definition extPrice :: "order_item \<Rightarrow> number" where
  "extPrice item = number_mult (item_price item) (to_number (of_int (quantity item)))"

definition kitchenSubtotal :: "order_item list \<Rightarrow> number" where
  "kitchenSubtotal kitems = foldl (\<lambda>sum item. number_add sum (extPrice item)) (Finite 0) kitems"

definition allSubtotal :: "order_item list \<Rightarrow> number" where
  "allSubtotal items =
     foldl (\<lambda>sum i. number_add sum (number_mult (item_price i) (to_number (of_int (quantity i)))))
       (Finite 0) items"

definition serviceCharge :: "order_item list \<Rightarrow> number" where
  "serviceCharge items = number_mult (allSubtotal items) (to_number (2 / 100))"

definition grandTotal :: "order_item list \<Rightarrow> number" where
  "grandTotal items = number_add (allSubtotal items) (serviceCharge items)"

definition payLabel :: "'id order \<Rightarrow> jsstring" where
  "payLabel order = (if payment_method order = js ''cash'' then js ''Cash'' else js ''Online'')"

text \<open>
  The body of \<open>printKitchenSlip\<close> after the empty check, cut at the source's own section
  comments; each part lists the builder calls in program order.
\<close>

definition slipHeader :: "runtime \<Rightarrow> 'id order \<Rightarrow> (EscPos \<Rightarrow> EscPos) list" where
  "slipHeader rt order =
     [init,
      alignLeft, normalSize,
      leftRight (formatDateTime rt (created_at order))
        (js ''Receipt #'' @ String_int rt (order_number order)) 48,
      println (js ''Store: 1''),
      feed 1,
      alignCenter,
      boldOn, println (js ''ASTHA HJB Canteen''), boldOff,
      println (js ''HJB Hall, IIT Kharagpur''),
      println (js ''West Bengal''),
      println (js ''+91-9333190224''),
      feed 1]"

definition slipBanner :: "runtime \<Rightarrow> int option \<Rightarrow> nat \<Rightarrow> nat \<Rightarrow> (EscPos \<Rightarrow> EscPos) list" where
  "slipBanner rt kitchenNumber kitchenIndex totalKitchens =
     [alignLeft, drawLine box_rule 48,
      alignCenter,
      boldOn,
      (case kitchenNumber of
         Some k \<Rightarrow> println (js ''KITCHEN '' @ String_int rt k)
       | None \<Rightarrow> println (js ''KITCHEN (UNASSIGNED)''))] @
     (if 1 < totalKitchens
      then [println (js ''Slip '' @ String_int rt (int kitchenIndex) @ js '' of '' @
                     String_int rt (int totalKitchens))]
      else []) @
     [boldOff,
      alignLeft, drawLine box_rule 48,
      feed 1]"

definition slipTable :: "runtime \<Rightarrow> 'id order \<Rightarrow> (EscPos \<Rightarrow> EscPos) list" where
  "slipTable rt order =
     (case table_number order of
        Some t \<Rightarrow>
          (if order_type order \<noteq> js ''delivery'' \<and> t \<noteq> 0
           then [alignCenter, boldOn, println (js ''TABLE '' @ String_int rt t), boldOff,
                 feed 1]
           else [])
      | None \<Rightarrow> [])"

definition slipCustomer :: "'id order \<Rightarrow> (EscPos \<Rightarrow> EscPos) list" where
  "slipCustomer order =
     [alignLeft] @
     (if truthy (customer_name order)
      then [leftRight (js ''Customer:'') (the (customer_name order)) 48] else []) @
     (if truthy (customer_phone order)
      then [leftRight (js ''Phone:'') (the (customer_phone order)) 48] else []) @
     (if truthy (customer_name order) \<or> truthy (customer_phone order) then [feed 1] else [])"

definition slipItemsHeader :: "(EscPos \<Rightarrow> EscPos) list" where
  "slipItemsHeader =
     [alignLeft,
      boldOn,
      println (col (js ''Item Name'') 21 AlignLeft @
               col (js ''Qty'') 7 AlignRight @
               col (js ''Price'') 10 AlignRight @
               col (js ''Total'') 10 AlignRight),
      boldOff,
      drawLine box_rule 48]"

definition slipItem :: "runtime \<Rightarrow> order_item \<Rightarrow> (EscPos \<Rightarrow> EscPos) list" where
  "slipItem rt item =
     [boldOn,
      println (col (if truthy (item_name item) then the (item_name item) else js ''Item'') 21 AlignLeft @
               col (String_int rt (quantity item)) 7 AlignRight @
               col (toFixed rt (item_price item) 2) 10 AlignRight @
               col (toFixed rt (extPrice item) 2) 10 AlignRight),
      boldOff] @
     (if 21 < length (if truthy (item_name item) then the (item_name item) else [])
      then [boldOn, println (js ''  '' @ drop 21 (the (item_name item))), boldOff]
      else [])"

definition slipItems :: "runtime \<Rightarrow> order_item list \<Rightarrow> (EscPos \<Rightarrow> EscPos) list" where
  "slipItems rt kitems = concat (map (slipItem rt) kitems) @ [feed 1]"

definition slipKitchenSubtotal ::
  "runtime \<Rightarrow> order_item list \<Rightarrow> int option \<Rightarrow> nat \<Rightarrow> (EscPos \<Rightarrow> EscPos) list" where
  "slipKitchenSubtotal rt kitems kitchenNumber totalKitchens =
     (if 1 < totalKitchens
      then [alignLeft, drawLine (js ''-'') 48,
            leftRight (js ''Kitchen '' @
                       (case kitchenNumber of Some k \<Rightarrow> String_int rt k | None \<Rightarrow> js ''Unassigned'') @
                       js '' subtotal:'')
              (toFixed rt (kitchenSubtotal kitems) 2) 48,
            feed 1]
      else [])"

definition slipTotals :: "runtime \<Rightarrow> 'id order \<Rightarrow> order_item list \<Rightarrow> (EscPos \<Rightarrow> EscPos) list" where
  "slipTotals rt order items =
     [alignLeft, drawLine box_rule 48,
      leftRight (js ''Order Subtotal:'') (toFixed rt (allSubtotal items) 2) 48,
      leftRight (js ''Service Charges (2%):'') (toFixed rt (serviceCharge items) 2) 48,
      boldOn,
      leftRight (payLabel order @ js '' (Total):'') (toFixed rt (grandTotal items) 2) 48,
      boldOff,
      feed 1,
      alignLeft, drawLine box_rule 48]"

definition slipFooter :: "'id order \<Rightarrow> (EscPos \<Rightarrow> EscPos) list" where
  "slipFooter order =
     [alignCenter, feed 1,
      println (js ''Thanks for dining with us!''),
      feed 1] @
     (if order_type order = js ''delivery''
      then [boldOn, println (js ''DELIVERY ORDER''), boldOff] else []) @
     [feed 3]"

definition slipCut :: "bool \<Rightarrow> (EscPos \<Rightarrow> EscPos) list" where
  "slipCut openDrawer = [cutPartial] @ (if openDrawer then [cashDrawer] else [])"

definition slipDocument ::
  "runtime \<Rightarrow> 'id order \<Rightarrow> order_item list \<Rightarrow> int option \<Rightarrow> nat \<Rightarrow> nat \<Rightarrow> bool \<Rightarrow> EscPos" where
  "slipDocument rt order items kitchenNumber kitchenIndex totalKitchens openDrawer =
     run (slipHeader rt order @
          slipBanner rt kitchenNumber kitchenIndex totalKitchens @
          slipTable rt order @
          slipCustomer order @
          slipItemsHeader @
          slipItems rt (kitchenItems items kitchenNumber) @
          slipKitchenSubtotal rt (kitchenItems items kitchenNumber) kitchenNumber totalKitchens @
          slipTotals rt order items @
          slipFooter order @
          slipCut openDrawer)
       new_EscPos"

text \<open>
  \<open>printKitchenSlip\<close> returns \<open>true\<close> when there is nothing to print or the job was
  accepted, and \<open>false\<close> from its \<open>catch\<close> when the send was rejected. The result is paired
  with the spool after the call.
\<close>

definition printKitchenSlip ::
  "runtime \<Rightarrow> process_env \<Rightarrow> driver \<Rightarrow> 'id order \<Rightarrow> order_item list \<Rightarrow> int option \<Rightarrow> nat \<Rightarrow> nat \<Rightarrow>
   bool \<Rightarrow> print_job list \<Rightarrow> bool \<times> print_job list" where
  "printKitchenSlip rt env drv order items kitchenNumber kitchenIndex totalKitchens openDrawer spool =
     (if kitchenItems items kitchenNumber = [] then (True, spool)
      else sendToPrinter env drv
             (toBuffer (slipDocument rt order items kitchenNumber kitchenIndex totalKitchens openDrawer))
             (getKitchenPrinterName rt env kitchenNumber) spool)"

text \<open>The object \<open>{ success, kitchens }\<close> that \<open>printOrder\<close> returns.\<close>

record print_result =
  result_success :: bool
  result_kitchens :: "int option list"

text \<open>
  One round of the loop of \<open>printOrder\<close>, for index \<open>i\<close>; the state of the loop is
  \<open>allSuccess\<close> and the spool. The pause between slips has no effect on either.
\<close>

definition openDrawer_for :: "process_env \<Rightarrow> 'id order \<Rightarrow> nat \<Rightarrow> bool" where
  "openDrawer_for env order kitchenIndex =
     (env (js ''OPEN_CASH_DRAWER'') = Some (js ''true'') \<and>
      payment_method order = js ''cash'' \<and>
      kitchenIndex = 1)"

definition printOrder_step ::
  "runtime \<Rightarrow> process_env \<Rightarrow> driver \<Rightarrow> 'id order \<Rightarrow> order_item list \<Rightarrow> int option list \<Rightarrow>
   bool \<times> print_job list \<Rightarrow> nat \<Rightarrow> bool \<times> print_job list" where
  "printOrder_step rt env drv order items kitchens st i =
     (let allSuccess = fst st; spool = snd st;
          kitchenNumber = kitchens ! i;
          kitchenIndex = i + 1;
          openDrawer = openDrawer_for env order kitchenIndex;
          (success, spool') =
            printKitchenSlip rt env drv order items kitchenNumber kitchenIndex (length kitchens)
              openDrawer spool
      in (if success then allSuccess else False, spool'))"

definition printOrder ::
  "runtime \<Rightarrow> process_env \<Rightarrow> driver \<Rightarrow> 'id order \<Rightarrow> order_item list \<Rightarrow> print_job list \<Rightarrow>
   print_result \<times> print_job list" where
  "printOrder rt env drv order items spool =
     (let kitchens = getUniqueKitchens items;
          (allSuccess, spool') =
            foldl (printOrder_step rt env drv order items kitchens) (True, spool)
              [0 ..< length kitchens]
      in (\<lparr>result_success = allSuccess, result_kitchens = kitchens\<rparr>, spool'))"

section \<open>The trigger and the printed-orders ledger (index.js)\<close>

record config =
  autoPrintEnabled :: bool
  printOnPaymentStatus :: jsstring
  playSound :: bool

text \<open>
  The state of the server between handler calls: the set \<open>printedOrders\<close> (members in
  insertion order) and the spool of the printer driver.
\<close>

record 'id server =
  printedOrders :: "'id list"
  spool :: "print_job list"

definition initial_server :: "'id server" where
  "initial_server = \<lparr>printedOrders = [], spool = []\<rparr>"

text \<open>\<open>Set.prototype.delete\<close>, and the first value of the set's iterator.\<close>

definition Set_delete :: "'a list \<Rightarrow> 'a \<Rightarrow> 'a list" where
  "Set_delete s x = remove1 x s"

definition first_value :: "'a list \<Rightarrow> 'a option" where
  "first_value s = (case s of [] \<Rightarrow> None | x # _ \<Rightarrow> Some x)"

definition shouldPrint :: "config \<Rightarrow> 'id order option \<Rightarrow> bool" where
  "shouldPrint cfg record =
     (case record of None \<Rightarrow> False
      | Some r \<Rightarrow> payment_status r = Some (printOnPaymentStatus cfg))"

text \<open>
  \<open>handlePaidOrder\<close>. \<open>fetchOrderDetails\<close> stands for the query of the order store:
  \<open>None\<close> when the order or its items cannot be read. The desktop notification changes
  nothing that is modelled.
\<close>

definition handlePaidOrder ::
  "config \<Rightarrow> runtime \<Rightarrow> process_env \<Rightarrow> driver \<Rightarrow> ('id \<Rightarrow> ('id order \<times> order_item list) option) \<Rightarrow>
   'id order \<Rightarrow> 'id server \<Rightarrow> 'id server" where
  "handlePaidOrder cfg rt env drv fetchOrderDetails record st =
     (let orderId = order_id record
      in if orderId \<in> set (printedOrders st) then st
         else case fetchOrderDetails orderId of
                None \<Rightarrow> st
              | Some (order, items) \<Rightarrow>
                  if \<not> autoPrintEnabled cfg then st
                  else let (result, spool') = printOrder rt env drv order items (spool st);
                           printed = (if result_success result then Set_add (printedOrders st) orderId
                                      else printedOrders st);
                           printed = (if 200 < length printed
                                      then (case first_value printed of
                                              Some oldest \<Rightarrow> Set_delete printed oldest
                                            | None \<Rightarrow> printed)
                                      else printed)
                       in \<lparr>printedOrders = printed, spool = spool'\<rparr>)"

text \<open>
  The payload of a realtime event, and the two callbacks of \<open>startRealtimeListener\<close>:
  each yields the record it passes to \<open>handlePaidOrder\<close>, if it calls it.
\<close>

record 'id payload =
  payload_old :: "'id order option"
  payload_new :: "'id order option"

definition onInsert :: "config \<Rightarrow> 'id payload \<Rightarrow> 'id order option" where
  "onInsert cfg payload = (if shouldPrint cfg (payload_new payload) then payload_new payload else None)"

definition onUpdate :: "config \<Rightarrow> 'id payload \<Rightarrow> 'id order option" where
  "onUpdate cfg payload =
     (let wasAlreadyPaid =
            (case payload_old payload of None \<Rightarrow> False
             | Some r \<Rightarrow> payment_status r = Some (printOnPaymentStatus cfg));
          isNowPaid = shouldPrint cfg (payload_new payload)
      in if \<not> wasAlreadyPaid \<and> isNowPaid then payload_new payload else None)"

text \<open>
  The handler runs once per qualifying event or polled row. A call carries what may differ
  from one call to the next: the answers of the printer driver, the answers of the order
  store, and the record. \<open>handle_calls\<close> runs a sequence of calls one after the other.
\<close>

record 'id handler_call =
  call_driver :: driver
  call_fetch :: "'id \<Rightarrow> ('id order \<times> order_item list) option"
  call_record :: "'id order"

definition handle_calls ::
  "config \<Rightarrow> runtime \<Rightarrow> process_env \<Rightarrow> 'id handler_call list \<Rightarrow> 'id server \<Rightarrow> 'id server" where
  "handle_calls cfg rt env calls st =
     foldl (\<lambda>s c. handlePaidOrder cfg rt env (call_driver c) (call_fetch c) (call_record c) s) st calls"

section \<open>Reference notions and sample data\<close>

text \<open>
  The order of kitchen keys as the specification words it: numeric keys ascending, the
  unassigned key after every numeric key.
\<close>

definition kitchen_before :: "int option \<Rightarrow> int option \<Rightarrow> bool" where
  "kitchen_before a b =
     (case a of None \<Rightarrow> False | Some x \<Rightarrow> (case b of None \<Rightarrow> True | Some y \<Rightarrow> x < y))"



text \<open>A builder step that only pushes bytes, the same whatever the builder holds.\<close>

definition appends :: "(EscPos \<Rightarrow> EscPos) \<Rightarrow> bool" where
  "appends f = (\<exists>e. \<forall>doc. bytes (f doc) = bytes doc @ e)"

text \<open>The order and the items of \<open>printSampleOrder\<close>, with a fixed creation time.\<close>

definition sampleOrder :: "nat order" where
  "sampleOrder =
     \<lparr>order_id = 7, order_number = 101, created_at = js ''2026-01-15T13:05:00.000Z'',
      order_type = js ''dine_in'', table_number = Some 5, customer_name = None,
      customer_phone = None, payment_method = js ''cash'', payment_status = Some (js ''paid'')\<rparr>"

definition sampleItems :: "order_item list" where
  "sampleItems =
     [\<lparr>item_name = Some (js ''Veg Biryani''), quantity = 2, item_price = Finite 120, kitchen_number = Kitchen 1\<rparr>,
      \<lparr>item_name = Some (js ''Paneer Butter Masala''), quantity = 1, item_price = Finite 150, kitchen_number = Kitchen 1\<rparr>,
      \<lparr>item_name = Some (js ''Roti''), quantity = 3, item_price = Finite 15, kitchen_number = Kitchen 2\<rparr>,
      \<lparr>item_name = Some (js ''Garlic Naan''), quantity = 2, item_price = Finite 25, kitchen_number = Kitchen 2\<rparr>,
      \<lparr>item_name = Some (js ''Cold Coffee''), quantity = 1, item_price = Finite 60, kitchen_number = Kitchen 3\<rparr>,
      \<lparr>item_name = Some (js ''Water Bottle''), quantity = 2, item_price = Finite 20, kitchen_number = Null\<rparr>]"


definition sampleRuntime :: runtime where
  "sampleRuntime =
     \<lparr>new_Date = (\<lambda>s. Some \<lparr>getDate = 15, getMonth = 0, getFullYear = 2026, getHours = 13, getMinutes = 5\<rparr>),
      exponent_string = (\<lambda>x. js ''1e+21'')\<rparr>"

definition sampleEnv :: process_env where
  "sampleEnv = [js ''OPEN_CASH_DRAWER'' \<mapsto> js ''true'']"

definition paidConfig :: config where
  "paidConfig = \<lparr>autoPrintEnabled = True, printOnPaymentStatus = js ''paid'', playSound = False\<rparr>"

definition alwaysAccepts :: driver where
  "alwaysAccepts sp job = True"

text \<open>
  Orders numbered by their identifier: order 0 has the sample items, every other order
  has no item; a call for order \<open>n\<close> on a driver that accepts every job; a call for
  order 0 on the driver that rejects the second job; a ledger holding 200 identifiers.
\<close>

definition ledgerOrder :: "nat \<Rightarrow> nat order" where
  "ledgerOrder n = sampleOrder\<lparr>order_id := n\<rparr>"

definition ledgerFetch :: "nat \<Rightarrow> (nat order \<times> order_item list) option" where
  "ledgerFetch n = Some (ledgerOrder n, if n = 0 then sampleItems else [])"

definition ledgerCall :: "nat \<Rightarrow> nat handler_call" where
  "ledgerCall n = \<lparr>call_driver = alwaysAccepts, call_fetch = ledgerFetch, call_record = ledgerOrder n\<rparr>"

definition fullLedger :: "nat server" where
  "fullLedger = \<lparr>printedOrders = [0 ..< 200], spool = []\<rparr>"

text \<open>A driver that rejects the second job it is handed and accepts every other one.\<close>

definition secondJobFails :: driver where
  "secondJobFails sp job = (length sp \<noteq> 1)"


text \<open>
  The job that \<open>printOrder\<close> hands to the driver in round \<open>i\<close> of its loop (the name as
  \<open>sendToPrinter\<close> settles it, the buffer of the slip), and whether the driver accepts it,
  given the spool \<open>sp\<close> at the start of \<open>printOrder\<close> and the jobs of the rounds before.
\<close>

definition slipJob ::
  "runtime \<Rightarrow> process_env \<Rightarrow> 'id order \<Rightarrow> order_item list \<Rightarrow> nat \<Rightarrow> print_job" where
  "slipJob rt env order items i =
     (let kitchens = getUniqueKitchens items;
          name = getKitchenPrinterName rt env (kitchens ! i)
      in (if name \<noteq> [] then name else getDefaultPrinterName env,
          toBuffer (slipDocument rt order items (kitchens ! i) (i + 1) (length kitchens)
                      (openDrawer_for env order (i + 1)))))"

definition slipAccepted ::
  "runtime \<Rightarrow> process_env \<Rightarrow> driver \<Rightarrow> 'id order \<Rightarrow> order_item list \<Rightarrow> print_job list \<Rightarrow> nat \<Rightarrow> bool" where
  "slipAccepted rt env drv order items sp i =
     drv (sp @ map (slipJob rt env order items) [0 ..< i]) (slipJob rt env order items i)"

section \<open>The number model\<close>

text \<open>
  \<open>binade\<close> finds the power of two at or below a positive value, and \<open>round_double\<close>
  yields a multiple of the spacing of that binade within half a spacing of its argument.
\<close>

lemma bit_length_bounds: "0 < n \<Longrightarrow> 2 ^ (bit_length n - 1) \<le> n \<and> n < 2 ^ bit_length n"
proof (induction n rule: bit_length.induct)
  case (1 n)
  show ?case
  proof (cases "n div 2 = 0")
    case True
    with 1 have "n = 1" by (simp add: div_eq_0_iff) 
    then show ?thesis by (simp add: bit_length.simps)
  next
    case False
    with 1 have IH: "2 ^ (bit_length (n div 2) - 1) \<le> n div 2 \<and> n div 2 < 2 ^ bit_length (n div 2)"
      by simp
    have pos: "0 < bit_length (n div 2)"
      using False by (subst bit_length.simps) simp
    have eq: "bit_length n = Suc (bit_length (n div 2))"
      using 1 by (subst bit_length.simps) simp
    from IH have "2 * 2 ^ (bit_length (n div 2) - 1) \<le> n" by linarith
    moreover from pos have "2 * 2 ^ (bit_length (n div 2) - 1) = (2::nat) ^ bit_length (n div 2)"
      by (cases "bit_length (n div 2)") simp_all
    moreover from IH have "n < 2 * 2 ^ bit_length (n div 2)" by linarith
    ultimately show ?thesis by (simp add: eq)
  qed
qed

lemma bit_length_real:
  assumes "0 < n"
  shows "(2::real) ^ (bit_length n - 1) \<le> real n" and "real n + 1 \<le> 2 ^ bit_length n"
    and "0 < bit_length n"
proof -
  from bit_length_bounds [OF assms] have b: "2 ^ (bit_length n - 1) \<le> n" "n + 1 \<le> 2 ^ bit_length n"
    by simp_all
  from b(1) have "real (2 ^ (bit_length n - 1)) \<le> real n" by (rule of_nat_mono)
  then show "(2::real) ^ (bit_length n - 1) \<le> real n" by simp
  from b(2) have "real (n + 1) \<le> real (2 ^ bit_length n)" by (rule of_nat_mono)
  then show "real n + 1 \<le> 2 ^ bit_length n" by simp
  show "0 < bit_length n" using assms by (subst bit_length.simps) simp
qed

lemma binade_bounds:
  assumes "0 < x"
  shows "pow2 (binade x) \<le> x \<and> x < pow2 (binade x + 1)"
proof (cases "1 \<le> x")
  case True
  define n where "n = nat \<lfloor>x\<rfloor>"
  from True have "1 \<le> \<lfloor>x\<rfloor>" by simp
  then have n0: "0 < n" by (simp add: n_def)
  from True have "real n = real_of_int \<lfloor>x\<rfloor>" by (simp add: n_def)
  then have n: "real n \<le> x" "x < real n + 1" by linarith+
  note b = bit_length_real [OF n0]
  from b(1) n(1) have lo: "(2::real) ^ (bit_length n - 1) \<le> x" by linarith
  from b(2) n(2) have hi: "x < 2 ^ bit_length n" by linarith
  have e: "binade x = int (bit_length n) - 1"
    using True by (simp add: binade_def n_def)
  from b(3) have "nat (int (bit_length n) - 1) = bit_length n - 1"
    by simp
  with lo hi b(3) show ?thesis
    by (simp add: e pow2_def)
next
  case False
  define c where "c = \<lceil>1 / x\<rceil>"
  define n where "n = nat (c - 1)"
  from False assms have inv: "1 < 1 / x" by simp
  then have c2: "2 \<le> c" unfolding c_def by linarith
  then have n0: "0 < n" by (simp add: n_def)
  from c2 have "real n = real_of_int c - 1" by (simp add: n_def)
  moreover have "1 / x \<le> real_of_int c" "real_of_int c - 1 < 1 / x"
    unfolding c_def by linarith+
  ultimately have n: "real n < 1 / x" "1 / x \<le> real n + 1" by linarith+
  note b = bit_length_real [OF n0]
  from b(1) n(1) have "(2::real) ^ (bit_length n - 1) < 1 / x" by linarith
  then have "2 ^ (bit_length n - 1) * x < 1"
    using assms by (simp add: pos_less_divide_eq)
  then have hi: "x < 1 / 2 ^ (bit_length n - 1)"
    by (simp add: pos_less_divide_eq mult.commute)
  from b(2) n(2) have "1 / x \<le> 2 ^ bit_length n" by linarith
  then have "1 \<le> 2 ^ bit_length n * x"
    using assms by (simp add: pos_divide_le_eq)
  then have lo: "1 / 2 ^ bit_length n \<le> x"
    by (simp add: pos_divide_le_eq mult.commute)
  have e: "binade x = - int (bit_length n)"
    using False by (simp add: binade_def n_def c_def)
  show ?thesis
  proof (cases "bit_length n = 1")
    case True
    with lo hi show ?thesis by (simp add: e pow2_def)
  next
    case False
    with b(3) have "1 < bit_length n" by simp
    then have "nat (int (bit_length n) - 1) = bit_length n - 1" "\<not> 0 \<le> 1 - int (bit_length n)"
      by simp_all
    with lo hi b(3) show ?thesis
      by (simp add: e pow2_def)
  qed
qed

lemma round_half_even_nearest: "\<bar>real_of_int (round_half_even y) - y\<bar> \<le> 1 / 2"
  unfolding round_half_even_def Let_def by (auto split: if_splits)

lemma pow2_pos: "0 < pow2 e"
  by (simp add: pow2_def)

text \<open>
  The rounded value is a multiple of the spacing \<open>u\<close> of the binade of \<open>x\<close> and lies within
  half a spacing of \<open>x\<close>.
\<close>

lemma round_double_nearest:
  assumes "x \<noteq> 0" and "u = pow2 (max (binade \<bar>x\<bar>) (- 1022) - 52)"
  shows "\<exists>m. round_double x = real_of_int m * u \<and> \<bar>round_double x - x\<bar> \<le> u / 2"
proof -
  define m where "m = round_half_even (\<bar>x\<bar> / u)"
  have u: "0 < u" unfolding assms(2) by (rule pow2_pos)
  have r: "round_double x = sgn x * real_of_int m * u"
    using assms by (simp add: round_double_def Let_def m_def)
  have "\<bar>real_of_int m - \<bar>x\<bar> / u\<bar> \<le> 1 / 2"
    unfolding m_def by (rule round_half_even_nearest)
  then have "\<bar>real_of_int m - \<bar>x\<bar> / u\<bar> * u \<le> 1 / 2 * u"
    using u by (simp add: mult_right_mono)
  moreover have "(real_of_int m - \<bar>x\<bar> / u) * u = real_of_int m * u - \<bar>x\<bar>"
    using u by (simp add: left_diff_distrib)
  then have "\<bar>real_of_int m - \<bar>x\<bar> / u\<bar> * u = \<bar>real_of_int m * u - \<bar>x\<bar>\<bar>"
    using u by (metis abs_mult abs_of_pos)
  ultimately have near: "\<bar>real_of_int m * u - \<bar>x\<bar>\<bar> \<le> u / 2" by simp
  show ?thesis
  proof (cases "0 < x")
    case True
    with r near have "round_double x = real_of_int m * u \<and> \<bar>round_double x - x\<bar> \<le> u / 2"
      by simp
    then show ?thesis by blast
  next
    case False
    with assms(1) have neg: "x < 0" by simp
    with r have "round_double x = real_of_int (- m) * u" by simp
    moreover from neg near r have "\<bar>round_double x - x\<bar> \<le> u / 2" by (simp add: abs_if split: if_splits)
    ultimately show ?thesis by blast
  qed
qed

section \<open>Partitioning by kitchen\<close>

lemma set_foldl_Set_add: "set (foldl Set_add acc xs) = set acc \<union> set xs"
  by (induction xs arbitrary: acc) (auto simp: Set_add_def)

lemma distinct_foldl_Set_add: "distinct acc \<Longrightarrow> distinct (foldl Set_add acc xs)"
  by (induction xs arbitrary: acc) (auto simp: Set_add_def)

lemma set_new_Set: "set (new_Set xs) = set xs"
  by (simp add: new_Set_def set_foldl_Set_add)

lemma distinct_new_Set: "distinct (new_Set xs)"
  by (simp add: new_Set_def distinct_foldl_Set_add)

lemma mset_insert_sorted: "mset (insert_sorted cmp x ys) = add_mset x (mset ys)"
  by (induction ys) auto

lemma set_insert_sorted: "set (insert_sorted cmp x ys) = insert x (set ys)"
  by (induction ys) auto

lemma mset_Array_sort: "mset (Array_sort cmp xs) = mset xs"
  by (induction xs) (auto simp: Array_sort_def mset_insert_sorted)

lemma set_Array_sort: "set (Array_sort cmp xs) = set xs"
  by (metis mset_Array_sort set_mset_mset)

lemma distinct_Array_sort: "distinct (Array_sort cmp xs) = distinct xs"
  by (metis mset_Array_sort distinct_count_atmost_1 set_mset_mset count_mset)

lemma kitchen_compare_trans:
  "kitchen_compare a b \<le> 0 \<Longrightarrow> kitchen_compare b c \<le> 0 \<Longrightarrow> kitchen_compare a c \<le> 0"
  by (cases a; cases b; cases c) auto

lemma kitchen_compare_total: "\<not> kitchen_compare a b \<le> 0 \<Longrightarrow> kitchen_compare b a \<le> 0"
  by (cases a; cases b) auto

lemma kitchen_compare_strict:
  "kitchen_compare a b \<le> 0 \<Longrightarrow> a \<noteq> b \<Longrightarrow> kitchen_before a b"
  by (cases a; cases b) (auto simp: kitchen_before_def)

lemma sorted_insert_sorted:
  "sorted_wrt (\<lambda>a b. kitchen_compare a b \<le> 0) ys \<Longrightarrow>
   sorted_wrt (\<lambda>a b. kitchen_compare a b \<le> 0) (insert_sorted kitchen_compare x ys)"
proof (induction ys)
  case Nil
  then show ?case by simp
next
  case (Cons y ys)
  show ?case
  proof (cases "kitchen_compare x y \<le> 0")
    case True
    with Cons.prems show ?thesis
      by (auto intro: kitchen_compare_trans)
  next
    case False
    then have "kitchen_compare y x \<le> 0" by (rule kitchen_compare_total)
    with False Cons show ?thesis
      by (auto simp: set_insert_sorted)
  qed
qed

lemma sorted_Array_sort:
  "sorted_wrt (\<lambda>a b. kitchen_compare a b \<le> 0) (Array_sort kitchen_compare xs)"
  by (induction xs) (auto simp: Array_sort_def intro: sorted_insert_sorted)

lemma strictly_sorted:
  "sorted_wrt (\<lambda>a b. kitchen_compare a b \<le> 0) xs \<Longrightarrow> distinct xs \<Longrightarrow> sorted_wrt kitchen_before xs"
  by (induction xs) (auto intro: kitchen_compare_strict)

lemma kitchen_before_irrefl: "\<not> kitchen_before a a"
  by (cases a) (auto simp: kitchen_before_def)

lemma kitchen_before_asym: "kitchen_before a b \<Longrightarrow> \<not> kitchen_before b a"
  by (cases a; cases b) (auto simp: kitchen_before_def)

text \<open>A strictly ascending list is determined by its set of members.\<close>

lemma sorted_before_unique:
  "sorted_wrt kitchen_before xs \<Longrightarrow> sorted_wrt kitchen_before ys \<Longrightarrow> set xs = set ys \<Longrightarrow> xs = ys"
proof (induction xs arbitrary: ys)
  case Nil
  then show ?case by simp
next
  case (Cons x xs)
  then obtain y ys' where ys: "ys = y # ys'" by (cases ys) auto
  have xy: "x = y"
  proof (rule ccontr)
    assume ne: "x \<noteq> y"
    with Cons.prems ys have "x \<in> set ys'" "y \<in> set xs" by auto
    with Cons.prems ys have "kitchen_before y x" "kitchen_before x y" by auto
    then show False using kitchen_before_asym by blast
  qed
  have "x \<notin> set xs" "y \<notin> set ys'"
    using Cons.prems ys kitchen_before_irrefl by auto
  with Cons.prems ys xy have "set xs = set ys'" by auto
  with Cons ys xy show ?case by auto
qed

lemma sorted_before_last:
  "sorted_wrt kitchen_before xs \<Longrightarrow> None \<in> set xs \<Longrightarrow> last xs = None"
  by (induction xs) (auto simp: kitchen_before_def)

lemma getUniqueKitchens_sorted: "sorted_wrt kitchen_before (getUniqueKitchens items)"
  unfolding getUniqueKitchens_def
  by (intro strictly_sorted sorted_Array_sort) (simp add: distinct_Array_sort distinct_new_Set)

lemma set_getUniqueKitchens:
  "set (getUniqueKitchens items) = (\<lambda>i. kitchen_or_null (kitchen_number i)) ` set items"
  by (simp add: getUniqueKitchens_def set_Array_sort set_new_Set)

lemma distinct_getUniqueKitchens: "distinct (getUniqueKitchens items)"
  by (simp add: getUniqueKitchens_def distinct_Array_sort distinct_new_Set)

lemma kitchenItems_key:
  "kitchenItems items k = filter (\<lambda>i. kitchen_or_null (kitchen_number i) = k) items"
  unfolding kitchenItems_def
  by (rule filter_cong) (auto simp: kitchen_or_null_def split: option.splits kitchen_field.splits)

lemma mset_filter_disjoint:
  "(\<And>x. x \<in> set xs \<Longrightarrow> \<not> (P x \<and> Q x)) \<Longrightarrow>
   mset (filter P xs) + mset (filter Q xs) = mset (filter (\<lambda>x. P x \<or> Q x) xs)"
  by (induction xs) auto

lemma mset_concat_filter_keys:
  "distinct ks \<Longrightarrow>
   mset (concat (map (\<lambda>k. filter (\<lambda>i. f i = k) xs) ks)) = mset (filter (\<lambda>i. f i \<in> set ks) xs)"
proof (induction ks)
  case Nil
  then show ?case by simp
next
  case (Cons k ks)
  then have "mset (concat (map (\<lambda>k. filter (\<lambda>i. f i = k) xs) (k # ks)))
      = mset (filter (\<lambda>i. f i = k) xs) + mset (filter (\<lambda>i. f i \<in> set ks) xs)"
    by simp
  also have "\<dots> = mset (filter (\<lambda>i. f i = k \<or> f i \<in> set ks) xs)"
    using Cons.prems by (intro mset_filter_disjoint) auto
  finally show ?case by simp
qed

lemma getUniqueKitchens_sampleItems:
  "getUniqueKitchens sampleItems = [Some 1, Some 2, Some 3, None]"
  by (simp add: sampleItems_def getUniqueKitchens_def Array_sort_def new_Set_def Set_add_def
      kitchen_or_null_def)

text \<open>
  C1 (partition coverage). The partitions of \<open>getUniqueKitchens\<close> and the per-kitchen
  filter of \<open>printKitchenSlip\<close> hold every item exactly once: the partitions together are
  the input list as a multiset, the keys are distinct, the key of every item is among
  them, an item is a member of the partition of key \<open>k\<close> exactly when \<open>k\<close> is its own key,
  and its key is the unassigned one exactly when its \<open>kitchen_number\<close> is \<open>null\<close> or
  missing.
\<close>

theorem partition_coverage:
  "mset (concat (map (kitchenItems items) (getUniqueKitchens items))) = mset items \<and>
   distinct (getUniqueKitchens items) \<and>
   (\<forall>i \<in> set items. kitchen_or_null (kitchen_number i) \<in> set (getUniqueKitchens items)) \<and>
   (\<forall>i \<in> set items. \<forall>k. i \<in> set (kitchenItems items k) \<longleftrightarrow> k = kitchen_or_null (kitchen_number i)) \<and>
   (\<forall>i :: order_item. kitchen_or_null (kitchen_number i) = None \<longleftrightarrow>
          kitchen_number i = Null \<or> kitchen_number i = Undefined)"
proof (intro conjI ballI allI)
  have "mset (concat (map (kitchenItems items) (getUniqueKitchens items)))
      = mset (filter (\<lambda>i. kitchen_or_null (kitchen_number i) \<in> set (getUniqueKitchens items)) items)"
    using mset_concat_filter_keys [OF distinct_getUniqueKitchens,
        of "\<lambda>i. kitchen_or_null (kitchen_number i)" items items]
    by (simp add: kitchenItems_key [abs_def])
  also have "\<dots> = mset items"
    by (simp add: set_getUniqueKitchens)
  finally show "mset (concat (map (kitchenItems items) (getUniqueKitchens items))) = mset items" .
  show "distinct (getUniqueKitchens items)" by (rule distinct_getUniqueKitchens)
  show "kitchen_or_null (kitchen_number i) \<in> set (getUniqueKitchens items)" if "i \<in> set items" for i
    using that by (simp add: set_getUniqueKitchens)
  show "i \<in> set (kitchenItems items k) \<longleftrightarrow> k = kitchen_or_null (kitchen_number i)"
    if "i \<in> set items" for i k
    using that by (auto simp: kitchenItems_key)
  show "kitchen_or_null (kitchen_number i) = None \<longleftrightarrow>
          kitchen_number i = Null \<or> kitchen_number i = Undefined" for i :: order_item
    by (auto simp: kitchen_or_null_def split: kitchen_field.splits)
qed

theorem partition_coverage_witness:
  "mset (concat (map (kitchenItems sampleItems) (getUniqueKitchens sampleItems))) = mset sampleItems \<and>
   getUniqueKitchens sampleItems = [Some 1, Some 2, Some 3, None] \<and>
   sampleItems ! 5 \<in> set (kitchenItems sampleItems None) \<and>
   sampleItems ! 5 \<notin> set (kitchenItems sampleItems (Some 1)) \<and>
   sampleItems ! 2 \<in> set (kitchenItems sampleItems (Some 2))"
proof -
  note cover = partition_coverage [of sampleItems]
  have m5: "sampleItems ! 5 \<in> set sampleItems" and m2: "sampleItems ! 2 \<in> set sampleItems"
    by (simp_all add: sampleItems_def)
  have k5: "kitchen_or_null (kitchen_number (sampleItems ! 5)) = None"
    and k2: "kitchen_or_null (kitchen_number (sampleItems ! 2)) = Some 2"
    by (simp_all add: sampleItems_def kitchen_or_null_def)
  from cover have member:
    "\<forall>i \<in> set sampleItems. \<forall>k. i \<in> set (kitchenItems sampleItems k) \<longleftrightarrow>
       k = kitchen_or_null (kitchen_number i)"
    by blast
  from member m5 k5 have a: "sampleItems ! 5 \<in> set (kitchenItems sampleItems None)"
    and b: "sampleItems ! 5 \<notin> set (kitchenItems sampleItems (Some 1))"
    by auto
  from member m2 k2 have c: "sampleItems ! 2 \<in> set (kitchenItems sampleItems (Some 2))"
    by auto
  from cover a b c show ?thesis
    by (simp only: getUniqueKitchens_sampleItems simp_thms)
qed

section \<open>The loop of \<open>printOrder\<close>\<close>


lemma kitchenItems_nonempty:
  "k \<in> set (getUniqueKitchens items) \<Longrightarrow> kitchenItems items k \<noteq> []"
  by (auto simp: set_getUniqueKitchens kitchenItems_key filter_empty_conv)

lemma printOrder_step_eq:
  assumes "i < length (getUniqueKitchens items)"
  shows "printOrder_step rt env drv order items (getUniqueKitchens items) (ok, sp) i =
           (ok \<and> drv sp (slipJob rt env order items i), sp @ [slipJob rt env order items i])"
proof -
  from assms have "getUniqueKitchens items ! i \<in> set (getUniqueKitchens items)" by simp
  then have "kitchenItems items (getUniqueKitchens items ! i) \<noteq> []"
    by (rule kitchenItems_nonempty)
  then show ?thesis
    by (simp add: printOrder_step_def printKitchenSlip_def sendToPrinter_def slipJob_def Let_def)
qed

lemma printOrder_loop:
  "n \<le> length (getUniqueKitchens items) \<Longrightarrow>
   foldl (printOrder_step rt env drv order items (getUniqueKitchens items)) (True, sp) [0 ..< n] =
     ((\<forall>i < n. slipAccepted rt env drv order items sp i),
      sp @ map (slipJob rt env order items) [0 ..< n])"
proof (induction n)
  case 0
  then show ?case by simp
next
  case (Suc n)
  then have n: "n < length (getUniqueKitchens items)" by simp
  from Suc have IH: "foldl (printOrder_step rt env drv order items (getUniqueKitchens items)) (True, sp) [0 ..< n] =
     ((\<forall>i < n. slipAccepted rt env drv order items sp i),
      sp @ map (slipJob rt env order items) [0 ..< n])" by simp
  show ?case
    by (simp add: IH printOrder_step_eq [OF n] slipAccepted_def less_Suc_eq) blast
qed

lemma printOrder_eq:
  "printOrder rt env drv order items sp =
     (\<lparr>result_success = (\<forall>i < length (getUniqueKitchens items). slipAccepted rt env drv order items sp i),
       result_kitchens = getUniqueKitchens items\<rparr>,
      sp @ map (slipJob rt env order items) [0 ..< length (getUniqueKitchens items)])"
  by (simp add: printOrder_def Let_def printOrder_loop)

lemma printKitchenSlip_round:
  assumes "i < length (getUniqueKitchens items)"
  shows "printKitchenSlip rt env drv order items (getUniqueKitchens items ! i) (Suc i)
           (length (getUniqueKitchens items)) (openDrawer_for env order (Suc i)) sp =
         (drv sp (slipJob rt env order items i), sp @ [slipJob rt env order items i])"
proof -
  from assms have "getUniqueKitchens items ! i \<in> set (getUniqueKitchens items)" by simp
  then have "kitchenItems items (getUniqueKitchens items ! i) \<noteq> []"
    by (rule kitchenItems_nonempty)
  then show ?thesis
    by (simp add: printKitchenSlip_def sendToPrinter_def slipJob_def Let_def)
qed

lemma nth_printOrder_spool:
  "i < length (getUniqueKitchens items) \<Longrightarrow>
   snd (printOrder rt env drv order items sp) ! (length sp + i) = slipJob rt env order items i"
  by (simp add: printOrder_eq nth_append)

text \<open>
  C2 (partition ordering). \<open>getUniqueKitchens\<close> returns the distinct keys of the items
  in strictly ascending order, numeric keys first and the unassigned key last, and the
  result is the same for every reordering of the items. \<open>printOrder\<close> prints in this
  order: its job number \<open>i + 1\<close> is the slip of the key at index \<open>i\<close>, built with slip
  index \<open>i + 1\<close> of the number of keys.
\<close>

theorem getUniqueKitchens_order:
  "sorted_wrt kitchen_before (getUniqueKitchens items) \<and>
   set (getUniqueKitchens items) = (\<lambda>i. kitchen_or_null (kitchen_number i)) ` set items \<and>
   (None \<in> set (getUniqueKitchens items) \<longrightarrow> last (getUniqueKitchens items) = None) \<and>
   (\<forall>items'. mset items' = mset items \<longrightarrow> getUniqueKitchens items' = getUniqueKitchens items) \<and>
   (\<forall>i < length (getUniqueKitchens items).
      snd (snd (printOrder rt env drv order items sp) ! (length sp + i)) =
        toBuffer (slipDocument rt order items (getUniqueKitchens items ! i) (i + 1)
                    (length (getUniqueKitchens items)) (openDrawer_for env order (i + 1))))"
proof (intro conjI allI impI)
  show "snd (snd (printOrder rt env drv order items sp) ! (length sp + i)) =
        toBuffer (slipDocument rt order items (getUniqueKitchens items ! i) (i + 1)
                    (length (getUniqueKitchens items)) (openDrawer_for env order (i + 1)))"
    if "i < length (getUniqueKitchens items)" for i
    using that by (simp add: nth_printOrder_spool slipJob_def Let_def)
  show "sorted_wrt kitchen_before (getUniqueKitchens items)"
    by (rule getUniqueKitchens_sorted)
  show "set (getUniqueKitchens items) = (\<lambda>i. kitchen_or_null (kitchen_number i)) ` set items"
    by (rule set_getUniqueKitchens)
  show "last (getUniqueKitchens items) = None" if "None \<in> set (getUniqueKitchens items)"
    using that by (rule sorted_before_last [OF getUniqueKitchens_sorted])
  show "getUniqueKitchens items' = getUniqueKitchens items" if "mset items' = mset items" for items'
  proof -
    from that have "set items' = set items" by (rule mset_eq_setD)
    then have "set (getUniqueKitchens items') = set (getUniqueKitchens items)"
      by (simp add: set_getUniqueKitchens)
    then show ?thesis
      by (intro sorted_before_unique getUniqueKitchens_sorted)
  qed
qed

theorem getUniqueKitchens_order_witness:
  "getUniqueKitchens (rev sampleItems) = getUniqueKitchens sampleItems \<and>
   getUniqueKitchens sampleItems = [Some 1, Some 2, Some 3, None] \<and>
   last (getUniqueKitchens sampleItems) = None \<and>
   sorted_wrt kitchen_before (getUniqueKitchens sampleItems) \<and>
   snd (snd (printOrder sampleRuntime sampleEnv alwaysAccepts sampleOrder sampleItems []) ! 3) =
     toBuffer (slipDocument sampleRuntime sampleOrder sampleItems None 4 4 False)"
proof -
  note ord = getUniqueKitchens_order [of sampleItems sampleRuntime sampleEnv alwaysAccepts
      sampleOrder "[]"]
  have perm: "mset (rev sampleItems) = mset sampleItems" by simp
  have none: "None \<in> set (getUniqueKitchens sampleItems)"
    by (simp add: getUniqueKitchens_sampleItems)
  have len: "length (getUniqueKitchens sampleItems) = 4"
    and k3: "getUniqueKitchens sampleItems ! 3 = None"
    by (simp_all add: getUniqueKitchens_sampleItems)
  have drawer: "openDrawer_for sampleEnv sampleOrder (3 + 1) = False"
    by (simp add: openDrawer_for_def)
  from ord perm have a: "getUniqueKitchens (rev sampleItems) = getUniqueKitchens sampleItems"
    by blast
  from ord none have b: "last (getUniqueKitchens sampleItems) = None" by blast
  from ord have c: "sorted_wrt kitchen_before (getUniqueKitchens sampleItems)" by blast
  from ord have "\<forall>i < length (getUniqueKitchens sampleItems).
      snd (snd (printOrder sampleRuntime sampleEnv alwaysAccepts sampleOrder sampleItems []) !
           (length ([] :: print_job list) + i)) =
        toBuffer (slipDocument sampleRuntime sampleOrder sampleItems (getUniqueKitchens sampleItems ! i)
                    (i + 1) (length (getUniqueKitchens sampleItems))
                    (openDrawer_for sampleEnv sampleOrder (i + 1)))"
    by blast
  moreover have "(3::nat) < length (getUniqueKitchens sampleItems)"
    by (simp add: len)
  ultimately have "snd (snd (printOrder sampleRuntime sampleEnv alwaysAccepts sampleOrder sampleItems []) !
           (length ([] :: print_job list) + 3)) =
        toBuffer (slipDocument sampleRuntime sampleOrder sampleItems (getUniqueKitchens sampleItems ! 3)
                    (3 + 1) (length (getUniqueKitchens sampleItems))
                    (openDrawer_for sampleEnv sampleOrder (3 + 1)))"
    by blast
  then have d: "snd (snd (printOrder sampleRuntime sampleEnv alwaysAccepts sampleOrder sampleItems []) ! 3) =
     toBuffer (slipDocument sampleRuntime sampleOrder sampleItems None 4 4 False)"
    unfolding len k3 drawer by simp
  show ?thesis
    by (intro conjI) (rule a getUniqueKitchens_sampleItems b c d)+
qed

text \<open>
  C4 (failure isolation and overall success). Whatever the driver answers, \<open>printOrder\<close>
  hands it one job per kitchen of \<open>getUniqueKitchens\<close>, in that order; round \<open>i\<close> is the
  call of \<open>printKitchenSlip\<close> for the kitchen at index \<open>i\<close>, made on the spool left by the
  rounds before it; and the returned success flag is true exactly when the driver
  accepted every one of these jobs.
\<close>

theorem printOrder_isolation:
  "result_kitchens (fst (printOrder rt env drv order items sp)) = getUniqueKitchens items \<and>
   snd (printOrder rt env drv order items sp) =
     sp @ map (slipJob rt env order items) [0 ..< length (getUniqueKitchens items)] \<and>
   (result_success (fst (printOrder rt env drv order items sp)) \<longleftrightarrow>
      (\<forall>i < length (getUniqueKitchens items). slipAccepted rt env drv order items sp i)) \<and>
   (\<forall>i < length (getUniqueKitchens items).
      printKitchenSlip rt env drv order items (getUniqueKitchens items ! i) (i + 1)
        (length (getUniqueKitchens items)) (openDrawer_for env order (i + 1))
        (sp @ map (slipJob rt env order items) [0 ..< i]) =
      (slipAccepted rt env drv order items sp i,
       sp @ map (slipJob rt env order items) [0 ..< Suc i]))"
  by (simp add: printOrder_eq printKitchenSlip_round slipAccepted_def)

theorem printOrder_isolation_witness:
  "length (snd (printOrder sampleRuntime sampleEnv secondJobFails sampleOrder sampleItems [])) = 4 \<and>
   \<not> result_success (fst (printOrder sampleRuntime sampleEnv secondJobFails sampleOrder sampleItems [])) \<and>
   result_kitchens (fst (printOrder sampleRuntime sampleEnv secondJobFails sampleOrder sampleItems []))
     = [Some 1, Some 2, Some 3, None] \<and>
   result_success (fst (printOrder sampleRuntime sampleEnv (\<lambda>sp job. True) sampleOrder sampleItems []))"
proof -
  note a = printOrder_isolation [of sampleRuntime sampleEnv secondJobFails sampleOrder sampleItems "[]"]
  note b = printOrder_isolation [of sampleRuntime sampleEnv "\<lambda>sp job. True" sampleOrder sampleItems "[]"]
  have "\<not> slipAccepted sampleRuntime sampleEnv secondJobFails sampleOrder sampleItems [] 1"
    by (simp add: slipAccepted_def secondJobFails_def)
  then have "\<not> (\<forall>i < length (getUniqueKitchens sampleItems).
      slipAccepted sampleRuntime sampleEnv secondJobFails sampleOrder sampleItems [] i)"
    by (auto simp: getUniqueKitchens_sampleItems intro!: exI [of _ 1])
  with a b show ?thesis
    by (simp add: getUniqueKitchens_sampleItems slipAccepted_def)
qed

section \<open>The slip and the cash drawer\<close>






text \<open>
  C9 (deterministic slip building). Two calls of \<open>printKitchenSlip\<close> with the same order,
  items, kitchen, slip index, slip count and drawer flag hand the driver the same bytes,
  whatever the environment, the driver and the earlier jobs of each call: the buffer of
  \<open>slipDocument\<close> for these arguments, or nothing when the kitchen has no item.
\<close>

theorem slip_deterministic:
  "map snd (drop (length sp1) (snd (printKitchenSlip rt env1 drv1 order items k idx n d sp1))) =
   map snd (drop (length sp2) (snd (printKitchenSlip rt env2 drv2 order items k idx n d sp2))) \<and>
   map snd (drop (length sp1) (snd (printKitchenSlip rt env1 drv1 order items k idx n d sp1))) =
     (if kitchenItems items k = [] then [] else [toBuffer (slipDocument rt order items k idx n d)])"
  by (simp add: printKitchenSlip_def sendToPrinter_def Let_def)

theorem slip_deterministic_witness:
  "map snd (drop 0 (snd (printKitchenSlip sampleRuntime sampleEnv (\<lambda>sp job. True)
                          sampleOrder sampleItems (Some 2) 2 4 False []))) =
   map snd (drop 1 (snd (printKitchenSlip sampleRuntime Map.empty secondJobFails
                          sampleOrder sampleItems (Some 2) 2 4 False [(js ''Grill'', [])])))"
  using slip_deterministic [of "[]" sampleRuntime sampleEnv "\<lambda>sp job. True"
      sampleOrder sampleItems "Some 2" 2 4 False "[(js ''Grill'', [])]" Map.empty secondJobFails]
  by simp

section \<open>The trigger\<close>

text \<open>
  C6 (update-event trigger). The update callback calls \<open>handlePaidOrder\<close> exactly when
  the new payment status is the configured trigger value and the old one is not, and then
  with the new record. With the trigger \<open>paid\<close>, an update from \<open>pending\<close> to \<open>paid\<close>
  qualifies and an update from \<open>paid\<close> to \<open>paid\<close> does not.
\<close>

theorem update_trigger:
  "(onUpdate cfg payload \<noteq> None \<longleftrightarrow>
      (\<exists>r. payload_new payload = Some r \<and> payment_status r = Some (printOnPaymentStatus cfg)) \<and>
      \<not> (\<exists>r. payload_old payload = Some r \<and> payment_status r = Some (printOnPaymentStatus cfg))) \<and>
   (onUpdate cfg payload \<noteq> None \<longrightarrow> onUpdate cfg payload = payload_new payload) \<and>
   (printOnPaymentStatus cfg = js ''paid'' \<longrightarrow>
      onUpdate cfg \<lparr>payload_old = Some (r\<lparr>payment_status := Some (js ''pending'')\<rparr>),
                    payload_new = Some (r\<lparr>payment_status := Some (js ''paid'')\<rparr>)\<rparr>
        = Some (r\<lparr>payment_status := Some (js ''paid'')\<rparr>) \<and>
      onUpdate cfg \<lparr>payload_old = Some (r\<lparr>payment_status := Some (js ''paid'')\<rparr>),
                    payload_new = Some (r\<lparr>payment_status := Some (js ''paid'')\<rparr>)\<rparr> = None)"
  by (auto simp: onUpdate_def shouldPrint_def js_def split: option.splits)

theorem update_trigger_witness:
  "onUpdate paidConfig \<lparr>payload_old = Some (sampleOrder\<lparr>payment_status := Some (js ''pending'')\<rparr>),
                         payload_new = Some (sampleOrder\<lparr>payment_status := Some (js ''paid'')\<rparr>)\<rparr>
     = Some (sampleOrder\<lparr>payment_status := Some (js ''paid'')\<rparr>) \<and>
   onUpdate paidConfig \<lparr>payload_old = Some (sampleOrder\<lparr>payment_status := Some (js ''paid'')\<rparr>),
                         payload_new = Some (sampleOrder\<lparr>payment_status := Some (js ''paid'')\<rparr>)\<rparr> = None"
proof -
  have "printOnPaymentStatus paidConfig = js ''paid''"
    by (simp add: paidConfig_def)
  with update_trigger [of paidConfig "\<lparr>payload_old = None, payload_new = None\<rparr>" sampleOrder]
  show ?thesis by blast
qed

section \<open>A kitchen without items\<close>

text \<open>
  C10 (empty partition). Called for a kitchen key that no item of the list has,
  \<open>printKitchenSlip\<close> returns \<open>true\<close> and hands the driver nothing.
\<close>

theorem empty_partition:
  "(\<forall>i \<in> set items. kitchen_or_null (kitchen_number i) \<noteq> kitchenNumber) \<Longrightarrow>
   printKitchenSlip rt env drv order items kitchenNumber kitchenIndex totalKitchens openDrawer sp
     = (True, sp)"
  by (simp add: printKitchenSlip_def kitchenItems_key filter_empty_conv)

theorem empty_partition_witness:
  "printKitchenSlip sampleRuntime sampleEnv alwaysAccepts sampleOrder sampleItems (Some 9) 1 1 False []
     = (True, [])"
  by (rule empty_partition) (simp add: sampleItems_def kitchen_or_null_def)

section \<open>The printed-orders ledger\<close>

lemma trim_length:
  "length xs \<le> 201 \<Longrightarrow>
   length (if 200 < length xs
           then (case first_value xs of Some oldest \<Rightarrow> Set_delete xs oldest | None \<Rightarrow> xs)
           else xs) \<le> 200"
  by (cases xs) (auto simp: first_value_def Set_delete_def)

lemma length_Set_add: "length (Set_add s x) \<le> Suc (length s)"
  by (simp add: Set_add_def)

lemma handlePaidOrder_cases:
  "handlePaidOrder cfg rt env drv fetch r st =
     (if order_id r \<in> set (printedOrders st) then st
      else case fetch (order_id r) of
             None \<Rightarrow> st
           | Some (order, items) \<Rightarrow>
               if \<not> autoPrintEnabled cfg then st
               else let printed = (if result_success (fst (printOrder rt env drv order items (spool st)))
                                   then printedOrders st @ [order_id r] else printedOrders st)
                    in \<lparr>printedOrders = (if 200 < length printed then tl printed else printed),
                        spool = snd (printOrder rt env drv order items (spool st))\<rparr>)"
  by (auto simp: handlePaidOrder_def Let_def Set_add_def first_value_def Set_delete_def
      split: option.splits prod.splits list.splits)

lemma handlePaidOrder_bound:
  "length (printedOrders st) \<le> 200 \<Longrightarrow>
   length (printedOrders (handlePaidOrder cfg rt env drv fetch r st)) \<le> 200"
  by (auto simp: handlePaidOrder_cases Let_def split: option.splits)

lemma handlePaidOrder_distinct:
  "distinct (printedOrders st) \<Longrightarrow>
   distinct (printedOrders (handlePaidOrder cfg rt env drv fetch r st))"
  by (auto simp: handlePaidOrder_cases Let_def distinct_tl split: option.splits dest: list.set_sel(2) [rotated])

lemma handle_calls_bound:
  "length (printedOrders st) \<le> 200 \<Longrightarrow>
   length (printedOrders (handle_calls cfg rt env calls st)) \<le> 200"
  unfolding handle_calls_def
  by (induction calls arbitrary: st) (simp_all add: handlePaidOrder_bound)

lemma handle_calls_initial_bound:
  "length (printedOrders (handle_calls cfg rt env calls initial_server)) \<le> 200"
  by (rule handle_calls_bound) (simp add: initial_server_def)

lemma getUniqueKitchens_Nil: "getUniqueKitchens [] = []"
  by (simp add: getUniqueKitchens_def new_Set_def Array_sort_def)

text \<open>
  C5 (ledger bound and FIFO eviction). After every sequence of handler calls from the
  start of the server the ledger holds at most 200 identifiers, and a call keeps the
  bound. When the ledger holds 200 identifiers and a call inserts a new one, the first
  value of the set, which is the identifier inserted longest ago, is removed and the new
  identifier is appended.
\<close>

theorem ledger_bound:
  "length (printedOrders (handle_calls cfg rt env calls initial_server)) \<le> 200 \<and>
   (length (printedOrders st) \<le> 200 \<longrightarrow>
      length (printedOrders (handlePaidOrder cfg rt env drv fetch r st)) \<le> 200) \<and>
   (length (printedOrders st) = 200 \<and> order_id r \<notin> set (printedOrders st) \<and>
    fetch (order_id r) = Some (order, items) \<and> autoPrintEnabled cfg \<and>
    result_success (fst (printOrder rt env drv order items (spool st))) \<longrightarrow>
      first_value (printedOrders st) = Some (hd (printedOrders st)) \<and>
      printedOrders (handlePaidOrder cfg rt env drv fetch r st) =
        tl (printedOrders st) @ [order_id r])"
proof (intro conjI impI)
  show "length (printedOrders (handle_calls cfg rt env calls initial_server)) \<le> 200"
    by (rule handle_calls_initial_bound)
  show "length (printedOrders (handlePaidOrder cfg rt env drv fetch r st)) \<le> 200"
    if "length (printedOrders st) \<le> 200"
    using that by (rule handlePaidOrder_bound)
  assume a: "length (printedOrders st) = 200 \<and> order_id r \<notin> set (printedOrders st) \<and>
    fetch (order_id r) = Some (order, items) \<and> autoPrintEnabled cfg \<and>
    result_success (fst (printOrder rt env drv order items (spool st)))"
  then have ne: "printedOrders st \<noteq> []" by auto
  then show "first_value (printedOrders st) = Some (hd (printedOrders st))"
    by (cases "printedOrders st") (simp_all add: first_value_def)
  from a ne show "printedOrders (handlePaidOrder cfg rt env drv fetch r st) =
        tl (printedOrders st) @ [order_id r]"
    by (simp add: handlePaidOrder_cases Let_def)
qed

theorem ledger_bound_witness:
  "printedOrders (handlePaidOrder paidConfig sampleRuntime sampleEnv alwaysAccepts ledgerFetch
                    (ledgerOrder 200) fullLedger) = tl [0 ..< 200] @ [200] \<and>
   length (printedOrders (handlePaidOrder paidConfig sampleRuntime sampleEnv alwaysAccepts ledgerFetch
                    (ledgerOrder 200) fullLedger)) \<le> 200 \<and>
   length (printedOrders (handle_calls paidConfig sampleRuntime sampleEnv [ledgerCall 1]
                    (initial_server :: nat server))) \<le> 200"
proof -
  note b = ledger_bound [of paidConfig sampleRuntime sampleEnv "[ledgerCall 1]" fullLedger
      alwaysAccepts ledgerFetch "ledgerOrder 200" "ledgerOrder 200" "[]"]
  have "result_success (fst (printOrder sampleRuntime sampleEnv alwaysAccepts (ledgerOrder 200) []
          (spool fullLedger)))"
    by (simp add: printOrder_eq getUniqueKitchens_Nil)
  moreover have "length (printedOrders fullLedger) = 200" "order_id (ledgerOrder 200) \<notin> set (printedOrders fullLedger)"
    "ledgerFetch (order_id (ledgerOrder 200)) = Some (ledgerOrder 200, [])" "autoPrintEnabled paidConfig"
    by (simp_all add: fullLedger_def ledgerOrder_def ledgerFetch_def paidConfig_def)
  ultimately show ?thesis
    using b by (simp add: fullLedger_def ledgerOrder_def)
qed


















section \<open>The totals block\<close>

lemma appendsI: "(\<And>doc. bytes (f doc) = bytes doc @ e) \<Longrightarrow> appends f"
  unfolding appends_def by blast

lemma appends_add [simp]: "appends (EscPos_add arr)"
  by (rule appendsI [of _ arr]) (simp add: EscPos_add_def)

lemma appends_println [simp]: "appends (println str)"
  by (rule appendsI [of _ "map (\<lambda>c. ucast (c AND 0xFF)) str @ CMD_LINE_FEED"])
    (simp add: println_def EscPos_text_def EscPos_add_def)

lemma appends_drawLine [simp]: "appends (drawLine c w)"
  unfolding drawLine_def [abs_def] by simp

lemma appends_leftRight [simp]: "appends (leftRight l r w)"
  unfolding leftRight_def [abs_def] Let_def by simp

lemma bytes_funpow_add: "bytes ((EscPos_add arr ^^ n) doc) = bytes doc @ concat (replicate n arr)"
  by (induction n arbitrary: doc) (simp_all add: EscPos_add_def funpow_swap1)

lemma appends_feed [simp]: "appends (feed n)"
  by (rule appendsI [of _ "concat (replicate n CMD_LINE_FEED)"]) (simp add: feed_def bytes_funpow_add)

lemma appends_commands [simp]:
  "appends init" "appends alignLeft" "appends alignCenter" "appends alignRight"
  "appends boldOn" "appends boldOff" "appends normalSize" "appends cutPartial" "appends cashDrawer"
  by (simp_all add: init_def alignLeft_def alignCenter_def alignRight_def boldOn_def boldOff_def
      normalSize_def cutPartial_def cashDrawer_def)






















lemma digits_nonempty: "digits n \<noteq> []"
  by (subst digits.simps) simp







end
